theory Spec2Isabelle
  imports
    Main
    "HOL-Library.Word"
    "HOL-Library.Signed_Division"
    "HOL-Library.Char_ord"
    "HOL-Library.List_Lexorder"
    "HOL-Library.Product_Lexorder"
begin

section \<open>The toll ledger of nod.cc\<close>

text \<open>
  The program reads lines from standard input. A crossing record
  \<^verbatim>\<open><plate> <road> <marker>\<close> opens or closes a segment of a vehicle on a road, a line
  \<^verbatim>\<open>? [<arg>]\<close> queries the accumulated totals, and every other non-empty line is
  reported on the error stream.

  Modelling decisions:
  \<^item> \<^verbatim>\<open>int\<close> is a 32-bit two's-complement integer, \<open>32 word\<close>, read with \<open>sint\<close>.
    Signed overflow is undefined in C++; the model takes the wrap-around that the usual
    targets produce. Distances and line numbers are computed with, so they are words.
    Road numbers are only compared and printed, so they are plain integers.
  \<^item> \<^verbatim>\<open>std::map\<close> is an association list that the operations keep in ascending key
    order: iterating the map is reading the list from left to right.
  \<^item> \<^verbatim>\<open>std::cout\<close> and \<^verbatim>\<open>std::cerr\<close> are lists of lines (every write of the program
    ends with \<^verbatim>\<open>std::endl\<close>); standard input is the list of lines that the successive
    calls of \<^verbatim>\<open>std::getline\<close> return.
  \<^item> \<^verbatim>\<open>char\<close> is ordered by its byte value and \<^verbatim>\<open>std::string\<close> lexicographically
    (the orders of \<open>Char_ord\<close> and \<open>List_Lexorder\<close>), tuples lexicographically
    (\<open>Product_Lexorder\<close>).
  \<^item> The character classes of the regular expressions and of the stream extraction are
    those of the "C" locale; \<^verbatim>\<open>^\<close> and \<^verbatim>\<open>$\<close> match at the two ends of the string only.
\<close>

subsection \<open>Machine integers and characters\<close>

type_synonym cint = "32 word"

definition INT_MAX :: int where
  "INT_MAX = 2147483647"

text \<open>\<^verbatim>\<open>std::abs\<close> on \<^verbatim>\<open>int\<close>; on the least value the negation wraps to itself.\<close>

definition std_abs :: "cint \<Rightarrow> cint" where
  "std_abs x = (if sint x < 0 then - x else x)"

definition is_space :: "char \<Rightarrow> bool" where
  "is_space c \<longleftrightarrow>
     c = CHR '' '' \<or> c = CHR 0x09 \<or> c = CHR 0x0A \<or> c = CHR 0x0B \<or> c = CHR 0x0C \<or> c = CHR 0x0D"

definition is_digit :: "char \<Rightarrow> bool" where
  "is_digit c \<longleftrightarrow> CHR ''0'' \<le> c \<and> c \<le> CHR ''9''"

definition is_alnum :: "char \<Rightarrow> bool" where
  "is_alnum c \<longleftrightarrow>
     (CHR ''a'' \<le> c \<and> c \<le> CHR ''z'') \<or> (CHR ''A'' \<le> c \<and> c \<le> CHR ''Z'') \<or> is_digit c"

text \<open>The value of a digit, \<^verbatim>\<open>c - '0'\<close>, and of a string of digits.\<close>

definition digit_val :: "char \<Rightarrow> int" where
  "digit_val c = int (of_char c) - int (of_char CHR ''0'')"

definition digits_val :: "string \<Rightarrow> int" where
  "digits_val ds = foldl (\<lambda>a c. 10 * a + digit_val c) 0 ds"

text \<open>What \<^verbatim>\<open>operator<<\<close> prints for an \<^verbatim>\<open>int\<close>.\<close>

definition digit_char :: "int \<Rightarrow> char" where
  "digit_char d = char_of (of_char CHR ''0'' + d)"

function show_nat :: "int \<Rightarrow> string" where
  "show_nat n = (if n < 10 then [digit_char n] else show_nat (n div 10) @ [digit_char (n mod 10)])"
  by pat_completeness auto
termination
  by (relation "measure nat") auto

declare show_nat.simps [simp del]

definition show_int :: "int \<Rightarrow> string" where
  "show_int i = (if i < 0 then CHR ''-'' # show_nat (- i) else show_nat i)"

subsection \<open>std::map\<close>

type_synonym ('k, 'v) std_map = "('k \<times> 'v) list"

text \<open>\<^verbatim>\<open>find\<close>: the value under a key, \<open>None\<close> for \<^verbatim>\<open>end()\<close>.\<close>

definition map_find :: "('k, 'v) std_map \<Rightarrow> 'k \<Rightarrow> 'v option" where
  "map_find m k = map_of m k"

text \<open>\<^verbatim>\<open>m[k] = v\<close>: the value of an existing key is replaced, a new key is inserted at its
  place in the key order.\<close>

fun map_set :: "('k::linorder, 'v) std_map \<Rightarrow> 'k \<Rightarrow> 'v \<Rightarrow> ('k, 'v) std_map" where
  "map_set [] k v = [(k, v)]"
| "map_set ((k', v') # m) k v =
     (if k < k' then (k, v) # (k', v') # m
      else if k = k' then (k, v) # m
      else (k', v') # map_set m k v)"

text \<open>\<^verbatim>\<open>erase\<close> of the element found under a key.\<close>

fun map_erase :: "('k, 'v) std_map \<Rightarrow> 'k \<Rightarrow> ('k, 'v) std_map" where
  "map_erase [] k = []"
| "map_erase ((k', v') # m) k = (if k' = k then m else (k', v') # map_erase m k)"

text \<open>The value that \<^verbatim>\<open>m[k]\<close> reads: a missing key is value-initialised.\<close>

definition map_at :: "('k, 'v) std_map \<Rightarrow> 'v \<Rightarrow> 'k \<Rightarrow> 'v" where
  "map_at m dflt k = (case map_find m k of None \<Rightarrow> dflt | Some v \<Rightarrow> v)"

text \<open>The invariant of \<^verbatim>\<open>std::map\<close>: keys strictly ascending.\<close>

definition map_ok :: "('k::linorder, 'v) std_map \<Rightarrow> bool" where
  "map_ok m \<longleftrightarrow> sorted_wrt (<) (map fst m)"

subsection \<open>Roads, vehicles, lines\<close>

type_synonym road_type_t = char
type_synonym road_num_t = int
type_synonym road_t = "road_num_t \<times> road_type_t"
type_synonym distance_t = cint
type_synonym plate_no_t = string
type_synonym vehicle_t = plate_no_t
type_synonym line_no_t = cint
type_synonym line_t = string
type_synonym line_desc_t = "line_no_t \<times> line_t"
type_synonym line_error_desc_t = line_desc_t

text \<open>\<^verbatim>\<open>^(A|S)([1-9]\d{0,2})$\<close>\<close>

definition parse_road :: "string \<Rightarrow> road_t option" where
  "parse_road road_str =
     (case road_str of
        [] \<Rightarrow> None
      | t # num \<Rightarrow>
          if (t = CHR ''A'' \<or> t = CHR ''S'') \<and> 1 \<le> length num \<and> length num \<le> 3
             \<and> is_digit (hd num) \<and> hd num \<noteq> CHR ''0'' \<and> list_all is_digit (tl num)
          then Some (digits_val num, t)
          else None)"

text \<open>\<^verbatim>\<open>^(0|[1-9]\d*),(\d)$\<close>; \<^verbatim>\<open>std::stoi\<close> throws \<^verbatim>\<open>std::out_of_range\<close> when the
  junction is beyond \<^verbatim>\<open>INT_MAX\<close>, and the function then returns \<^verbatim>\<open>std::nullopt\<close>. The
  multiplication and the addition are those of \<^verbatim>\<open>int\<close>.\<close>

definition parse_distance :: "string \<Rightarrow> distance_t option" where
  "parse_distance distance_str =
     (let junction = takeWhile is_digit distance_str;
          rest = dropWhile is_digit distance_str
      in if (junction = ''0'' \<or> (junction \<noteq> [] \<and> hd junction \<noteq> CHR ''0''))
            \<and> length rest = 2 \<and> hd rest = CHR '','' \<and> is_digit (rest ! 1)
         then (let decimal = digit_val (rest ! 1)
               in if digits_val junction > INT_MAX then None
                  else Some (of_int (digits_val junction) * 10 + of_int decimal))
         else None)"

text \<open>\<^verbatim>\<open>^[a-zA-Z0-9]{3,11}$\<close>\<close>

definition parse_vehicle :: "string \<Rightarrow> vehicle_t option" where
  "parse_vehicle plate_no_str =
     (if 3 \<le> length plate_no_str \<and> length plate_no_str \<le> 11 \<and> list_all is_alnum plate_no_str
      then Some plate_no_str else None)"

subsection \<open>The ledger\<close>

type_synonym road_type_data_t = "(road_type_t, distance_t) std_map"
type_synonym vehicles_data_t = "(vehicle_t, road_type_data_t) std_map"
type_synonym roads_data_t = "(road_t, distance_t) std_map"
type_synonym not_finished_entry_t = "road_t \<times> distance_t \<times> line_desc_t"
type_synonym not_finished_data_t = "(vehicle_t, not_finished_entry_t) std_map"

record state_t =
  vehicles_data :: vehicles_data_t
  roads_data :: roads_data_t
  not_finished :: not_finished_data_t

text \<open>\<^verbatim>\<open>add_entry\<close>: the test \<^verbatim>\<open>count(vehicle)\<close> and the \<^verbatim>\<open>find(vehicle)\<close> that
  follows it are the one lookup; the state is returned with the error line.\<close>

definition add_entry ::
  "state_t \<Rightarrow> vehicle_t \<Rightarrow> road_t \<Rightarrow> distance_t \<Rightarrow> line_desc_t
     \<Rightarrow> state_t \<times> line_error_desc_t option" where
  "add_entry state vehicle road distance line_desc =
     (case map_find (not_finished state) vehicle of
        Some (not_finished_road, start_distance, paired_line) \<Rightarrow>
          if not_finished_road = road then
            (let traveled_distance = std_abs (distance - start_distance);
                 roads = map_set (roads_data state) road
                           (map_at (roads_data state) 0 road + traveled_distance);
                 by_type = map_at (vehicles_data state) [] vehicle;
                 vehicles = map_set (vehicles_data state) vehicle
                              (map_set by_type (snd road)
                                 (map_at by_type 0 (snd road) + traveled_distance))
             in (\<lparr>vehicles_data = vehicles, roads_data = roads,
                  not_finished = map_erase (not_finished state) vehicle\<rparr>, None))
          else
            (state\<lparr>not_finished :=
                      map_set (not_finished state) vehicle (road, distance, line_desc)\<rparr>,
             Some paired_line)
      | None \<Rightarrow>
          (state\<lparr>not_finished :=
                    map_set (not_finished state) vehicle (road, distance, line_desc)\<rparr>,
           None))"

subsection \<open>Reading lines\<close>

type_synonym command_desc_t = "road_t option \<times> vehicle_t option"
type_synonym info_desc_t = "vehicle_t \<times> road_t \<times> distance_t"

text \<open>\<^verbatim>\<open>^\s*\?\s*([^\s]*)\s*$\<close>: white space, the question mark, white space, the
  argument (the longest run without white space), and white space up to the end.\<close>

definition parse_command :: "line_t \<Rightarrow> command_desc_t option" where
  "parse_command line =
     (case dropWhile is_space line of
        [] \<Rightarrow> None
      | c # after_mark \<Rightarrow>
          if c \<noteq> CHR ''?'' then None
          else
            (let rest = dropWhile is_space after_mark;
                 arg = takeWhile (\<lambda>x. \<not> is_space x) rest;
                 tail = dropWhile (\<lambda>x. \<not> is_space x) rest
             in if \<not> list_all is_space tail then None
                else if arg = [] then Some (None, None)
                else
                  (let road = parse_road arg; vehicle = parse_vehicle arg
                   in if road = None \<and> vehicle = None then None
                      else Some (road, vehicle))))"

text \<open>\<^verbatim>\<open>while (ss >> word)\<close>: skip white space, read up to the next white space.\<close>

function split_args :: "string \<Rightarrow> string list" where
  "split_args str =
     (case dropWhile is_space str of
        [] \<Rightarrow> []
      | c # cs \<Rightarrow>
          takeWhile (\<lambda>x. \<not> is_space x) (c # cs)
            # split_args (dropWhile (\<lambda>x. \<not> is_space x) cs))"
  by pat_completeness auto
termination
proof (relation "measure length")
  show "wf (measure length)" by simp
next
  fix str :: string and c cs
  assume "dropWhile is_space str = c # cs"
  then have "length (c # cs) \<le> length str"
    by (metis length_dropWhile_le)
  moreover have "length (dropWhile (\<lambda>x. \<not> is_space x) cs) \<le> length cs"
    by (rule length_dropWhile_le)
  ultimately show "(dropWhile (\<lambda>x. \<not> is_space x) cs, str) \<in> measure length"
    by simp
qed

declare split_args.simps [simp del]

definition parse_info :: "line_t \<Rightarrow> info_desc_t option" where
  "parse_info line =
     (let args = split_args line
      in if length args = 3 then
           (case (parse_vehicle (args ! 0), parse_road (args ! 1), parse_distance (args ! 2)) of
              (Some vehicle, Some road, Some distance) \<Rightarrow> Some (vehicle, road, distance)
            | _ \<Rightarrow> None)
         else None)"

subsection \<open>Printing\<close>

text \<open>\<^verbatim>\<open>distance / 10 << "," << distance % 10\<close> with the truncating division of C++.\<close>

definition show_distance :: "distance_t \<Rightarrow> string" where
  "show_distance distance =
     show_int (sint distance sdiv 10) @ '','' @ show_int (sint distance smod 10)"

definition show_road :: "road_t \<Rightarrow> string" where
  "show_road road = snd road # show_int (fst road)"

definition show_vehicle :: "vehicle_t \<Rightarrow> string" where
  "show_vehicle vehicle = vehicle"

fun show_road_type_data :: "road_type_data_t \<Rightarrow> string" where
  "show_road_type_data [] = []"
| "show_road_type_data [(t, d)] = t # '' '' @ show_distance d"
| "show_road_type_data ((t, d) # entries) =
     t # '' '' @ show_distance d @ '' '' @ show_road_type_data entries"

definition vehicle_line :: "vehicle_t \<times> road_type_data_t \<Rightarrow> string" where
  "vehicle_line entry = show_vehicle (fst entry) @ '' '' @ show_road_type_data (snd entry)"

definition road_line :: "road_t \<times> distance_t \<Rightarrow> string" where
  "road_line entry = show_road (fst entry) @ '' '' @ show_distance (snd entry)"

definition error_text :: "line_error_desc_t \<Rightarrow> string" where
  "error_text error_line =
     ''Error in line '' @ show_int (sint (fst error_line)) @ '': '' @ snd error_line"

subsection \<open>The dispatcher\<close>

text \<open>The ledger and the two output streams.\<close>

record world =
  state :: state_t
  cout :: "string list"
  cerr :: "string list"

definition print_error :: "world \<Rightarrow> line_error_desc_t \<Rightarrow> world" where
  "print_error w error_line = w\<lparr>cerr := cerr w @ [error_text error_line]\<rparr>"

definition handle_command :: "world \<Rightarrow> line_desc_t \<Rightarrow> bool \<times> world" where
  "handle_command w line_desc =
     (case parse_command (snd line_desc) of
        None \<Rightarrow> (False, w)
      | Some (cmd_road, cmd_vehicle) \<Rightarrow>
          (let out_all =
                 (if cmd_road = None \<and> cmd_vehicle = None
                  then map vehicle_line (vehicles_data (state w))
                       @ map road_line (roads_data (state w))
                  else []);
               out_vehicle =
                 (case cmd_vehicle of
                    None \<Rightarrow> []
                  | Some v \<Rightarrow>
                      (case map_find (vehicles_data (state w)) v of
                         None \<Rightarrow> []
                       | Some e \<Rightarrow> [vehicle_line (v, e)]));
               out_road =
                 (case cmd_road of
                    None \<Rightarrow> []
                  | Some r \<Rightarrow>
                      (case map_find (roads_data (state w)) r of
                         None \<Rightarrow> []
                       | Some d \<Rightarrow> [road_line (r, d)]))
           in (True, w\<lparr>cout := cout w @ out_all @ out_vehicle @ out_road\<rparr>)))"

definition handle_info :: "world \<Rightarrow> line_desc_t \<Rightarrow> bool \<times> world" where
  "handle_info w line_desc =
     (case parse_info (snd line_desc) of
        None \<Rightarrow> (False, w)
      | Some (vehicle, road, distance) \<Rightarrow>
          (case add_entry (state w) vehicle road distance line_desc of
             (state', error_line) \<Rightarrow>
               (let w' = w\<lparr>state := state'\<rparr>
                in (True, (case error_line of None \<Rightarrow> w' | Some e \<Rightarrow> print_error w' e)))))"

text \<open>The body of the loop of \<^verbatim>\<open>handle_all\<close> for one line, \<^verbatim>\<open>||\<close> evaluated from the left.\<close>

definition handle_line :: "world \<Rightarrow> line_desc_t \<Rightarrow> world" where
  "handle_line w line_desc =
     (if snd line_desc = [] then w
      else
        (case handle_command w line_desc of
           (True, w1) \<Rightarrow> w1
         | (False, w1) \<Rightarrow>
             (case handle_info w1 line_desc of
                (True, w2) \<Rightarrow> w2
              | (False, w2) \<Rightarrow> print_error w2 line_desc)))"

fun handle_loop :: "world \<Rightarrow> line_no_t \<Rightarrow> line_t list \<Rightarrow> world" where
  "handle_loop w line_no [] = w"
| "handle_loop w line_no (line # lines) =
     handle_loop (handle_line w (line_no + 1, line)) (line_no + 1) lines"

definition empty_world :: world where
  "empty_world =
     \<lparr>state = \<lparr>vehicles_data = [], roads_data = [], not_finished = []\<rparr>, cout = [], cerr = []\<rparr>"

text \<open>\<^verbatim>\<open>handle_all\<close>: the loop on an empty ledger, from line number 0. Nothing follows the
  loop; the world it returns is what the run has written, and the ledger is dropped.\<close>

definition handle_all :: "line_t list \<Rightarrow> world" where
  "handle_all lines = handle_loop empty_world 0 lines"

subsection \<open>Reading the ledger\<close>

text \<open>\<^verbatim>\<open>RoadTotals[r]\<close> and \<^verbatim>\<open>RoadTypeTotals[v][t]\<close>, a missing entry read as zero.\<close>

definition road_total :: "state_t \<Rightarrow> road_t \<Rightarrow> distance_t" where
  "road_total s r = map_at (roads_data s) 0 r"

definition road_type_total :: "state_t \<Rightarrow> vehicle_t \<Rightarrow> road_type_t \<Rightarrow> distance_t" where
  "road_type_total s v t = map_at (map_at (vehicles_data s) [] v) 0 t"

text \<open>The invariant of the ledger: each of its maps is in key order.\<close>

definition state_ok :: "state_t \<Rightarrow> bool" where
  "state_ok s \<longleftrightarrow>
     map_ok (vehicles_data s) \<and> list_all (\<lambda>e. map_ok (snd e)) (vehicles_data s)
     \<and> map_ok (roads_data s) \<and> map_ok (not_finished s)"

text \<open>The world without the pending entry of a vehicle, and the lines that
  \<open>parse_info\<close> reads as a crossing of that vehicle.\<close>

definition drop_pending :: "world \<Rightarrow> vehicle_t \<Rightarrow> world" where
  "drop_pending w v =
     w\<lparr>state := (state w)\<lparr>not_finished := map_erase (not_finished (state w)) v\<rparr>\<rparr>"

definition crossing_of :: "vehicle_t \<Rightarrow> line_t \<Rightarrow> bool" where
  "crossing_of v line \<longleftrightarrow> map_option fst (parse_info line) = Some v"

section \<open>Properties\<close>

subsection \<open>std::map\<close>

lemma map_find_set_same: "map_find (map_set m k v) k = Some v"
  by (induction m) (auto simp: map_find_def)

lemma map_find_set_other: "k' \<noteq> k \<Longrightarrow> map_find (map_set m k v) k' = map_find m k'"
  by (induction m) (auto simp: map_find_def)

lemma map_find_erase_other: "k' \<noteq> k \<Longrightarrow> map_find (map_erase m k) k' = map_find m k'"
  by (induction m) (auto simp: map_find_def)

lemma map_erase_set_fresh: "map_find m k = None \<Longrightarrow> map_erase (map_set m k v) k = m"
  by (induction m) (auto simp: map_find_def split: if_splits)




lemma map_at_set_same: "map_at (map_set m k v) dflt k = v"
  by (simp add: map_at_def map_find_set_same)

subsection \<open>Arithmetic of int\<close>

lemma sint_range32: "- 2147483648 \<le> sint (x::cint) \<and> sint x \<le> 2147483647"
  using sint_ge [of x] sint_lt [of x] by simp

lemma sint_diff32:
  "- 2147483648 \<le> sint a - sint b \<Longrightarrow> sint a - sint b \<le> 2147483647
   \<Longrightarrow> sint (a - b :: cint) = sint a - sint b"
  by (simp add: sint_word_diff signed_take_bit_int_eq_self)

lemma sint_add32:
  "- 2147483648 \<le> sint a + sint b \<Longrightarrow> sint a + sint b \<le> 2147483647
   \<Longrightarrow> sint (a + b :: cint) = sint a + sint b"
  by (simp add: sint_word_ariths signed_take_bit_int_eq_self)

lemma sint_std_abs: "- 2147483648 < sint x \<Longrightarrow> sint (std_abs x) = \<bar>sint x\<bar>"
  using sint_range32 [of x]
  by (simp add: std_abs_def sint_word_minus signed_take_bit_int_eq_self)

text \<open>Between two markers that are not negative the travelled distance is the absolute
  difference in the integers, and a total that stays within \<^verbatim>\<open>int\<close> grows by it.\<close>

lemma traveled_exact:
  assumes "0 \<le> sint d1" "0 \<le> sint d2"
  shows "sint (std_abs (d2 - d1)) = \<bar>sint d2 - sint d1\<bar>"
proof -
  have b: "sint d1 \<le> 2147483647" "sint d2 \<le> 2147483647"
    using sint_range32 [of d1] sint_range32 [of d2] by simp_all
  have "sint (d2 - d1) = sint d2 - sint d1"
    using assms b by (intro sint_diff32) simp_all
  moreover have "- 2147483648 < sint (d2 - d1)"
    using assms b calculation by simp
  ultimately show ?thesis
    by (simp add: sint_std_abs)
qed

lemma total_exact:
  assumes "0 \<le> sint d1" "0 \<le> sint d2" "0 \<le> sint t"
    and "sint t + \<bar>sint d2 - sint d1\<bar> \<le> INT_MAX"
  shows "sint (t + std_abs (d2 - d1)) = sint t + \<bar>sint d2 - sint d1\<bar>"
proof -
  have "sint (t + std_abs (d2 - d1)) = sint t + sint (std_abs (d2 - d1))"
    using assms by (intro sint_add32) (simp_all add: traveled_exact INT_MAX_def)
  then show ?thesis
    using assms by (simp add: traveled_exact)
qed

subsection \<open>The three cases of add\_entry\<close>

lemma add_entry_open:
  "map_find (not_finished s) v = None \<Longrightarrow>
   add_entry s v r d l = (s\<lparr>not_finished := map_set (not_finished s) v (r, d, l)\<rparr>, None)"
  by (simp add: add_entry_def)

lemma add_entry_close:
  "map_find (not_finished s) v = Some (r, d0, l0) \<Longrightarrow>
   add_entry s v r d l =
     (\<lparr>vehicles_data =
         map_set (vehicles_data s) v
           (map_set (map_at (vehicles_data s) [] v) (snd r)
              (road_type_total s v (snd r) + std_abs (d - d0))),
       roads_data = map_set (roads_data s) r (road_total s r + std_abs (d - d0)),
       not_finished = map_erase (not_finished s) v\<rparr>, None)"
  by (simp add: add_entry_def Let_def road_total_def road_type_total_def)

lemma add_entry_conflict:
  "map_find (not_finished s) v = Some (r0, d0, l0) \<Longrightarrow> r0 \<noteq> r \<Longrightarrow>
   add_entry s v r d l = (s\<lparr>not_finished := map_set (not_finished s) v (r, d, l)\<rparr>, Some l0)"
  by (simp add: add_entry_def)

subsection \<open>A segment on one road\<close>

text \<open>
  A vehicle \<open>v\<close> without a pending entry is recorded on road \<open>r\<close> at \<open>d1\<close> and then on
  the same road at \<open>d2\<close>. Neither call returns an error line, and \<open>v\<close> has no pending
  entry afterwards. The two totals are rewritten with the sum that \<^verbatim>\<open>int\<close> computes.
\<close>

lemma add_entry_same_road_int:
  assumes "map_find (not_finished s) v = None"
  shows "case add_entry s v r d1 l1 of (s1, e1) \<Rightarrow>
           (case add_entry s1 v r d2 l2 of (s2, e2) \<Rightarrow>
              e1 = None \<and> e2 = None
              \<and> map_find (not_finished s2) v = None
              \<and> road_total s2 r = road_total s r + std_abs (d2 - d1)
              \<and> road_type_total s2 v (snd r)
                  = road_type_total s v (snd r) + std_abs (d2 - d1))"
proof -
  let ?s1 = "s\<lparr>not_finished := map_set (not_finished s) v (r, d1, l1)\<rparr>"
  have one: "add_entry s v r d1 l1 = (?s1, None)"
    using assms by (rule add_entry_open)
  have pending: "map_find (not_finished ?s1) v = Some (r, d1, l1)"
    by (simp add: map_find_set_same)
  note two = add_entry_close [OF pending, of d2 l2]
  show ?thesis
    by (simp add: one two assms map_erase_set_fresh road_total_def road_type_total_def
          map_at_set_same)
qed

text \<open>
  Read in the integers: when the two markers are not negative, as parsed markers within
  \<^verbatim>\<open>int\<close> are, and each total with the segment added stays within \<^verbatim>\<open>int\<close>, both totals
  grow by the absolute difference of the markers.
\<close>

lemma add_entry_same_road_exact:
  assumes "map_find (not_finished s) v = None"
    and "0 \<le> sint d1" and "0 \<le> sint d2"
    and "0 \<le> sint (road_total s r)"
    and "sint (road_total s r) + \<bar>sint d2 - sint d1\<bar> \<le> INT_MAX"
    and "0 \<le> sint (road_type_total s v (snd r))"
    and "sint (road_type_total s v (snd r)) + \<bar>sint d2 - sint d1\<bar> \<le> INT_MAX"
  shows "sint (road_total (fst (add_entry (fst (add_entry s v r d1 l1)) v r d2 l2)) r)
           = sint (road_total s r) + \<bar>sint d2 - sint d1\<bar>
         \<and> sint (road_type_total (fst (add_entry (fst (add_entry s v r d1 l1)) v r d2 l2))
                 v (snd r))
           = sint (road_type_total s v (snd r)) + \<bar>sint d2 - sint d1\<bar>
         \<and> snd (add_entry s v r d1 l1) = None
         \<and> snd (add_entry (fst (add_entry s v r d1 l1)) v r d2 l2) = None
         \<and> map_find (not_finished (fst (add_entry (fst (add_entry s v r d1 l1)) v r d2 l2))) v
           = None"
proof -
  obtain s1 e1 where a1: "add_entry s v r d1 l1 = (s1, e1)"
    by (cases "add_entry s v r d1 l1")
  obtain s2 e2 where a2: "add_entry s1 v r d2 l2 = (s2, e2)"
    by (cases "add_entry s1 v r d2 l2")
  from add_entry_same_road_int [OF assms(1), where r = r and ?d1.0 = d1 and ?l1.0 = l1
      and ?d2.0 = d2 and ?l2.0 = l2]
  have m: "e1 = None" "e2 = None" "map_find (not_finished s2) v = None"
    "road_total s2 r = road_total s r + std_abs (d2 - d1)"
    "road_type_total s2 v (snd r) = road_type_total s v (snd r) + std_abs (d2 - d1)"
    by (simp_all add: a1 a2)
  have "sint (road_total s2 r) = sint (road_total s r) + \<bar>sint d2 - sint d1\<bar>"
    unfolding m(4) using assms(2-5) by (rule total_exact)
  moreover have "sint (road_type_total s2 v (snd r))
      = sint (road_type_total s v (snd r)) + \<bar>sint d2 - sint d1\<bar>"
    unfolding m(5) using assms(2,3,6,7) by (rule total_exact)
  ultimately show ?thesis
    using m(1-3) by (simp add: a1 a2)
qed

text \<open>
  C1. The claim is that the two calls raise \<^verbatim>\<open>RoadTotals[r]\<close> and
  \<^verbatim>\<open>RoadTypeTotals[v][r.type]\<close> by exactly the absolute difference of the markers, for
  every ledger and every pair of markers. The code adds with \<^verbatim>\<open>+=\<close> on \<^verbatim>\<open>int\<close> and does
  not look at the range. After the lines \<^verbatim>\<open>ABC123 A1 0,0\<close> and
  \<^verbatim>\<open>ABC123 A1 214748364,7\<close> both totals are 2147483647. The vehicle has no pending
  entry; it is recorded on A1 at \<^verbatim>\<open>0,0\<close> and at \<^verbatim>\<open>0,5\<close>. Neither call returns an
  error line, but the totals do not grow by 5: the sums overflow, both totals are
  -2147483644 with wrap-around, and the query prints \<^verbatim>\<open>A1 -214748364,-4\<close>.
\<close>

theorem add_entry_same_road_overflows:
  "sint (road_total
          (state (handle_all [''ABC123 A1 0,0'', ''ABC123 A1 214748364,7'']))
          (1, CHR ''A'')) = 2147483647
   \<and> sint (road_type_total
          (state (handle_all [''ABC123 A1 0,0'', ''ABC123 A1 214748364,7'']))
          ''ABC123'' CHR ''A'') = 2147483647
   \<and> map_find
        (not_finished (state (handle_all [''ABC123 A1 0,0'', ''ABC123 A1 214748364,7''])))
        ''ABC123'' = None
   \<and> snd (add_entry (state (handle_all [''ABC123 A1 0,0'', ''ABC123 A1 214748364,7'']))
             ''ABC123'' (1, CHR ''A'') 0 (3, ''ABC123 A1 0,0'')) = None
   \<and> snd (add_entry
             (fst (add_entry (state (handle_all [''ABC123 A1 0,0'', ''ABC123 A1 214748364,7'']))
                     ''ABC123'' (1, CHR ''A'') 0 (3, ''ABC123 A1 0,0'')))
             ''ABC123'' (1, CHR ''A'') 5 (4, ''ABC123 A1 0,5'')) = None
   \<and> sint (road_total
          (fst (add_entry
             (fst (add_entry (state (handle_all [''ABC123 A1 0,0'', ''ABC123 A1 214748364,7'']))
                     ''ABC123'' (1, CHR ''A'') 0 (3, ''ABC123 A1 0,0'')))
             ''ABC123'' (1, CHR ''A'') 5 (4, ''ABC123 A1 0,5'')))
          (1, CHR ''A'')) = - 2147483644
   \<and> sint (road_type_total
          (fst (add_entry
             (fst (add_entry (state (handle_all [''ABC123 A1 0,0'', ''ABC123 A1 214748364,7'']))
                     ''ABC123'' (1, CHR ''A'') 0 (3, ''ABC123 A1 0,0'')))
             ''ABC123'' (1, CHR ''A'') 5 (4, ''ABC123 A1 0,5'')))
          ''ABC123'' CHR ''A'') = - 2147483644
   \<and> - 2147483644 \<noteq> (2147483647 :: int) + \<bar>5 - 0\<bar>
   \<and> cout (handle_all [''ABC123 A1 0,0'', ''ABC123 A1 214748364,7'',
                        ''ABC123 A1 0,0'', ''ABC123 A1 0,5'', ''? A1''])
       = [''A1 -214748364,-4'']"
  by code_simp

subsection \<open>A crossing on another road\<close>

text \<open>
  C2. A vehicle \<open>v\<close> without a pending entry is recorded on road \<open>r1\<close> and then on a
  different road \<open>r2\<close>. The first call returns no error line, the second returns the line
  of the first; afterwards \<open>v\<close> is pending on \<open>r2\<close> at the second distance with the second
  line, and the two tables of totals are what they were.
\<close>

theorem add_entry_other_road:
  assumes "map_find (not_finished s) v = None" and "r1 \<noteq> r2"
  shows "case add_entry s v r1 d1 l1 of (s1, e1) \<Rightarrow>
           (case add_entry s1 v r2 d2 l2 of (s2, e2) \<Rightarrow>
              e1 = None \<and> e2 = Some l1
              \<and> map_find (not_finished s2) v = Some (r2, d2, l2)
              \<and> roads_data s2 = roads_data s \<and> vehicles_data s2 = vehicles_data s)"
proof -
  let ?s1 = "s\<lparr>not_finished := map_set (not_finished s) v (r1, d1, l1)\<rparr>"
  have one: "add_entry s v r1 d1 l1 = (?s1, None)"
    using assms(1) by (rule add_entry_open)
  have pending: "map_find (not_finished ?s1) v = Some (r1, d1, l1)"
    by (simp add: map_find_set_same)
  note two = add_entry_conflict [OF pending assms(2), of d2 l2]
  show ?thesis
    by (simp add: one two map_find_set_same)
qed

theorem add_entry_other_road_witness:
  "map_find (not_finished \<lparr>vehicles_data = [], roads_data = [], not_finished = []\<rparr>) ''ABC123''
     = None
   \<and> (1, CHR ''A'') \<noteq> (2 :: int, CHR ''S'')
   \<and> (case add_entry \<lparr>vehicles_data = [], roads_data = [], not_finished = []\<rparr>
              ''ABC123'' (1, CHR ''A'') 100 (1, ''ABC123 A1 10,0'') of
        (s1, e1) \<Rightarrow>
          (case add_entry s1 ''ABC123'' (2, CHR ''S'') 50 (2, ''ABC123 S2 5,0'') of
             (s2, e2) \<Rightarrow>
               e1 = None \<and> e2 = Some (1, ''ABC123 A1 10,0'')
               \<and> not_finished s2 = [(''ABC123'', (2, CHR ''S''), 50, 2, ''ABC123 S2 5,0'')]
               \<and> roads_data s2 = [] \<and> vehicles_data s2 = []))"
proof -
  let ?s = "\<lparr>vehicles_data = [], roads_data = [], not_finished = []\<rparr>"
  have h: "map_find (not_finished ?s) ''ABC123'' = None"
    by (simp add: map_find_def)
  have ne: "(1, CHR ''A'') \<noteq> (2 :: int, CHR ''S'')"
    by simp
  show ?thesis
    using h ne add_entry_other_road [OF h ne, where ?d1.0 = 100
        and ?l1.0 = "(1, ''ABC123 A1 10,0'')" and ?d2.0 = 50
        and ?l2.0 = "(2, ''ABC123 S2 5,0'')"]
    by (simp add: add_entry_def map_find_def)
qed

subsection \<open>What one call changes\<close>




subsection \<open>Markers\<close>

lemma comma_not_digit: "\<not> is_digit CHR '',''"
  by (simp add: is_digit_def less_eq_char_def)

lemma digit_val_range: "is_digit c \<Longrightarrow> 0 \<le> digit_val c \<and> digit_val c \<le> 9"
  by (auto simp: is_digit_def digit_val_def less_eq_char_def)

lemma foldl_digits_nonneg:
  "list_all is_digit ds \<Longrightarrow> 0 \<le> a \<Longrightarrow> 0 \<le> foldl (\<lambda>a c. 10 * a + digit_val c) a ds"
proof (induction ds arbitrary: a)
  case Nil
  then show ?case by simp
next
  case (Cons c ds)
  then have "0 \<le> 10 * a + digit_val c"
    using digit_val_range [of c] by simp
  with Cons show ?case by simp
qed

lemma digits_val_nonneg: "list_all is_digit ds \<Longrightarrow> 0 \<le> digits_val ds"
  by (simp add: digits_val_def foldl_digits_nonneg)

lemma split_marker:
  assumes "list_all is_digit ds"
  shows "takeWhile is_digit (ds @ [CHR '','', c]) = ds"
    and "dropWhile is_digit (ds @ [CHR '','', c]) = [CHR '','', c]"
  using assms comma_not_digit by (induction ds) auto

text \<open>A marker \<open>D,d\<close> of the grammar: absent when \<open>D\<close> is beyond INT_MAX, else the int computed.\<close>

lemma parse_distance_marker:
  assumes "list_all is_digit ds" and "ds = ''0'' \<or> (ds \<noteq> [] \<and> hd ds \<noteq> CHR ''0'')"
    and "is_digit c"
  shows "parse_distance (ds @ [CHR '','', c])
           = (if INT_MAX < digits_val ds then None
              else Some (of_int (digits_val ds) * 10 + of_int (digit_val c)))"
  using assms by (auto simp add: parse_distance_def split_marker Let_def)

lemma parse_distance_in_range:
  assumes "list_all is_digit ds" and "ds = ''0'' \<or> (ds \<noteq> [] \<and> hd ds \<noteq> CHR ''0'')"
    and "is_digit c" and "10 * digits_val ds + digit_val c \<le> INT_MAX"
  shows "map_option sint (parse_distance (ds @ [CHR '','', c]))
           = Some (10 * digits_val ds + digit_val c)"
proof -
  have n: "0 \<le> digits_val ds" "0 \<le> digit_val c" "digit_val c \<le> 9"
    using assms digits_val_nonneg digit_val_range by auto
  then have le: "digits_val ds \<le> INT_MAX"
    using assms(4) by simp
  have "signed_take_bit (LENGTH(32) - 1) (10 * digits_val ds + digit_val c)
          = 10 * digits_val ds + digit_val c"
    using n assms(4) by (intro signed_take_bit_int_eq_self) (simp_all add: INT_MAX_def)
  then have "sint (word_of_int (10 * digits_val ds + digit_val c) :: cint)
          = 10 * digits_val ds + digit_val c"
    by (simp only: sint_sbintrunc')
  then have "sint (of_int (digits_val ds) * 10 + of_int (digit_val c) :: cint)
          = 10 * digits_val ds + digit_val c"
    by (simp add: mult.commute)
  then show ?thesis
    using le by (simp add: parse_distance_marker [OF assms(1-3)])
qed

text \<open>A marker beyond INT_MAX is not parsed, and its line is reported.\<close>

lemma oversized_marker_line:
  "parse_distance ''2147483648,0'' = None
   \<and> handle_all [''ABC123 A1 2147483648,0'']
       = empty_world\<lparr>cerr := [''Error in line 1: ABC123 A1 2147483648,0'']\<rparr>"
  by code_simp

text \<open>
  C10. For the marker \<^verbatim>\<open>214748365,0\<close> the junction fits in \<^verbatim>\<open>int\<close>, so
  \<^verbatim>\<open>std::stoi\<close> returns it, but ten times the junction does not: the multiplication
  overflows, and with wrap-around the function returns -2147483646 and not 2147483650.
  The crossing is recorded with that distance, and the segment from marker \<^verbatim>\<open>0,0\<close> is
  accounted as 214748364,6.
\<close>

theorem parse_distance_overflows:
  "map_option sint (parse_distance ''214748365,0'') = Some (- 2147483646)
   \<and> map_option sint (parse_distance ''214748365,0'') \<noteq> Some (10 * 214748365 + 0)
   \<and> cout (handle_all [''ABC123 A1 0,0'', ''ABC123 A1 214748365,0'', ''? A1''])
       = [''A1 214748364,6'']"
  by code_simp

subsection \<open>Lines that are neither blank, nor a command, nor a crossing\<close>

lemma all_space_dropWhile: "list_all is_space line \<Longrightarrow> dropWhile is_space line = []"
  by (simp add: list_all_iff)

lemma handle_line_malformed:
  "line \<noteq> [] \<Longrightarrow> parse_command line = None \<Longrightarrow> parse_info line = None \<Longrightarrow>
   handle_line w (n, line) = w\<lparr>cerr := cerr w @ [error_text (n, line)]\<rparr>"
  by (simp add: handle_line_def handle_command_def handle_info_def print_error_def)

text \<open>
  C7. A line that is not empty and that neither \<open>parse_command\<close> nor \<open>parse_info\<close>
  accepts adds the one line \<^verbatim>\<open>Error in line <n>: <text>\<close> to the error stream and changes
  nothing else, neither the ledger nor the standard output; the loop goes on with the
  next line.
\<close>

theorem malformed_line_reported:
  assumes "line \<noteq> []" and "parse_command line = None" and "parse_info line = None"
  shows "handle_line w (n, line)
           = w\<lparr>cerr := cerr w @ [''Error in line '' @ show_int (sint n) @ '': '' @ line]\<rparr>
         \<and> handle_loop w n0 (line # rest)
           = handle_loop
               (w\<lparr>cerr := cerr w
                     @ [''Error in line '' @ show_int (sint (n0 + 1)) @ '': '' @ line]\<rparr>)
               (n0 + 1) rest"
  using assms by (simp add: handle_line_malformed error_text_def)

theorem malformed_line_reported_witness:
  "''hello world'' \<noteq> [] \<and> parse_command ''hello world'' = None
   \<and> parse_info ''hello world'' = None
   \<and> handle_line empty_world (1, ''hello world'')
       = empty_world\<lparr>cerr := [''Error in line 1: hello world'']\<rparr>
   \<and> handle_loop empty_world 0 [''hello world'', ''ABC123 A1 10,0'']
       = handle_loop (empty_world\<lparr>cerr := [''Error in line 1: hello world'']\<rparr>) 1
           [''ABC123 A1 10,0'']"
proof -
  have h1: "''hello world'' \<noteq> []" by simp
  have h2: "parse_command ''hello world'' = None" by code_simp
  have h3: "parse_info ''hello world'' = None" by code_simp
  have e0: "''Error in line '' @ show_int (sint (0 + 1 :: cint)) @ '': '' @ ''hello world''
              = ''Error in line 1: hello world''"
    by code_simp
  have e1: "''Error in line '' @ show_int (sint (1 :: cint)) @ '': '' @ ''hello world''
              = ''Error in line 1: hello world''"
    by code_simp
  have c: "cerr empty_world @ [x] = [x]" for x
    by (simp add: empty_world_def)
  have n: "(0 :: cint) + 1 = 1"
    by simp
  from malformed_line_reported [OF h1 h2 h3, of empty_world 1 0 "[''ABC123 A1 10,0'']"]
  have "handle_line empty_world (1, ''hello world'')
          = empty_world\<lparr>cerr := [''Error in line 1: hello world'']\<rparr>
        \<and> handle_loop empty_world 0 [''hello world'', ''ABC123 A1 10,0'']
          = handle_loop (empty_world\<lparr>cerr := [''Error in line 1: hello world'']\<rparr>) 1
              [''ABC123 A1 10,0'']"
    unfolding e0 e1 c unfolding n .
  with h1 h2 h3 show ?thesis
    by blast
qed

lemma split_args_all_space: "list_all is_space line \<Longrightarrow> split_args line = []"
  by (simp add: split_args.simps all_space_dropWhile)

text \<open>
  C9. A line that is not empty and holds white space only is reported like any other
  malformed line, and the ledger and the standard output stay as they are; the empty
  line is passed over without any effect.
\<close>

theorem space_line_reported:
  assumes "line \<noteq> []" and "list_all is_space line"
  shows "handle_line w (n, line)
           = w\<lparr>cerr := cerr w @ [''Error in line '' @ show_int (sint n) @ '': '' @ line]\<rparr>
         \<and> handle_line w (n, []) = w"
proof -
  have "parse_command line = None"
    using assms(2) by (simp add: parse_command_def all_space_dropWhile)
  moreover have "parse_info line = None"
    using assms(2) by (simp add: parse_info_def split_args_all_space)
  ultimately have "handle_line w (n, line) = w\<lparr>cerr := cerr w @ [error_text (n, line)]\<rparr>"
    using assms(1) by (rule handle_line_malformed [rotated])
  moreover have "handle_line w (n, []) = w"
    by (simp add: handle_line_def)
  ultimately show ?thesis
    by (simp add: error_text_def)
qed

theorem space_line_reported_witness:
  "[CHR '' '', CHR 0x09] \<noteq> [] \<and> list_all is_space [CHR '' '', CHR 0x09]
   \<and> handle_line empty_world (1, [CHR '' '', CHR 0x09])
       = empty_world\<lparr>cerr := [''Error in line 1: '' @ [CHR '' '', CHR 0x09]]\<rparr>
   \<and> handle_line empty_world (1, []) = empty_world"
proof -
  have h1: "[CHR '' '', CHR 0x09] \<noteq> []" by simp
  have h2: "list_all is_space [CHR '' '', CHR 0x09]" by (simp add: is_space_def)
  have e: "''Error in line '' @ show_int (sint (1 :: cint)) @ '': '' @ [CHR '' '', CHR 0x09]
             = ''Error in line 1: '' @ [CHR '' '', CHR 0x09]"
    by code_simp
  have c: "cerr empty_world @ [x] = [x]" for x
    by (simp add: empty_world_def)
  from space_line_reported [OF h1 h2, of empty_world 1]
  have "handle_line empty_world (1, [CHR '' '', CHR 0x09])
          = empty_world\<lparr>cerr := [''Error in line 1: '' @ [CHR '' '', CHR 0x09]]\<rparr>
        \<and> handle_line empty_world (1, []) = empty_world"
    unfolding e c .
  with h1 h2 show ?thesis
    by blast
qed

subsection \<open>Commands\<close>

lemma alnum_not_space: "is_alnum c \<Longrightarrow> \<not> is_space c"
  by (auto simp: is_alnum_def is_digit_def is_space_def less_eq_char_def)

lemma skip_space: "list_all is_space pre \<Longrightarrow> dropWhile is_space (pre @ xs) = dropWhile is_space xs"
  by (simp add: list_all_iff)

lemma take_word:
  assumes "list_all (\<lambda>x. \<not> is_space x) arg" and "list_all is_space post"
  shows "takeWhile (\<lambda>x. \<not> is_space x) (arg @ post) = arg"
    and "dropWhile (\<lambda>x. \<not> is_space x) (arg @ post) = post"
proof -
  have "takeWhile (\<lambda>x. \<not> is_space x) post = []" "dropWhile (\<lambda>x. \<not> is_space x) post = post"
    using assms(2) by (cases post; simp)+
  then show "takeWhile (\<lambda>x. \<not> is_space x) (arg @ post) = arg"
    and "dropWhile (\<lambda>x. \<not> is_space x) (arg @ post) = post"
    using assms(1) by (simp_all add: list_all_iff)
qed

lemma parse_command_arg:
  assumes "list_all is_space pre" and "list_all is_space mid" and "list_all is_space post"
    and "arg \<noteq> []" and "list_all (\<lambda>x. \<not> is_space x) arg"
  shows "parse_command (pre @ CHR ''?'' # mid @ arg @ post)
           = (if parse_road arg = None \<and> parse_vehicle arg = None then None
              else Some (parse_road arg, parse_vehicle arg))"
proof -
  have mark: "dropWhile is_space (pre @ CHR ''?'' # mid @ arg @ post)
                = CHR ''?'' # mid @ arg @ post"
    using assms(1) by (simp add: skip_space is_space_def)
  have "dropWhile is_space (arg @ post) = arg @ post"
    using assms(4,5) by (cases arg) simp_all
  then have rest: "dropWhile is_space (mid @ arg @ post) = arg @ post"
    using assms(2) by (simp add: skip_space)
  show ?thesis
    using assms(3,4)
    by (simp add: parse_command_def mark rest take_word [OF assms(5,3)] Let_def)
qed

lemma handle_line_command:
  "parse_command line = Some c \<Longrightarrow> handle_line w (n, line) = snd (handle_command w (n, line))"
  by (cases "line = []")
    (auto simp: handle_line_def handle_command_def parse_command_def split: prod.splits)

text \<open>
  C8. The argument of a command is accepted by \<open>parse_road\<close> and by \<open>parse_vehicle\<close>
  (as \<^verbatim>\<open>A12\<close> is), with any white space before the question mark, after it and at the
  end of the line. The command writes the line of the vehicle when the vehicle has
  totals, then the line of the road when the road has a total, and nothing else.
\<close>

theorem query_both_sections:
  assumes "parse_road arg = Some r" and "parse_vehicle arg = Some v"
    and "list_all is_space pre" and "list_all is_space mid" and "list_all is_space post"
  shows "handle_command w (n, pre @ ''?'' @ mid @ arg @ post)
           = (True,
              w\<lparr>cout := cout w
                   @ (case map_find (vehicles_data (state w)) v of
                        None \<Rightarrow> [] | Some e \<Rightarrow> [vehicle_line (v, e)])
                   @ (case map_find (roads_data (state w)) r of
                        None \<Rightarrow> [] | Some d \<Rightarrow> [road_line (r, d)])\<rparr>)"
proof -
  have "list_all is_alnum arg" and "arg \<noteq> []"
    using assms(2) by (auto simp: parse_vehicle_def split: if_splits)
  then have "list_all (\<lambda>x. \<not> is_space x) arg"
    by (auto simp: list_all_iff alnum_not_space)
  with \<open>arg \<noteq> []\<close> assms have "parse_command (pre @ ''?'' @ mid @ arg @ post) = Some (Some r, Some v)"
    by (simp add: parse_command_arg)
  then show ?thesis
    by (simp add: handle_command_def)
qed

theorem query_both_sections_witness:
  "parse_road ''A12'' = Some (12, CHR ''A'') \<and> parse_vehicle ''A12'' = Some ''A12''
   \<and> list_all is_space [] \<and> list_all is_space '' ''
   \<and> handle_command (handle_all [''A12 A12 0,0'', ''A12 A12 1,5'']) (3, ''? A12'')
       = (True, handle_all [''A12 A12 0,0'', ''A12 A12 1,5'']
                  \<lparr>cout := [''A12 A 1,5'', ''A12 1,5'']\<rparr>)"
proof -
  let ?w = "handle_all [''A12 A12 0,0'', ''A12 A12 1,5'']"
  have h1: "parse_road ''A12'' = Some (12, CHR ''A'')" by code_simp
  have h2: "parse_vehicle ''A12'' = Some ''A12''" by code_simp
  have h3: "list_all is_space []" by simp
  have h4: "list_all is_space '' ''" by (simp add: is_space_def)
  have l: "[] @ ''?'' @ '' '' @ ''A12'' @ [] = ''? A12''" by simp
  have ev: "cout ?w
              @ (case map_find (vehicles_data (state ?w)) ''A12'' of
                   None \<Rightarrow> [] | Some e \<Rightarrow> [vehicle_line (''A12'', e)])
              @ (case map_find (roads_data (state ?w)) (12, CHR ''A'') of
                   None \<Rightarrow> [] | Some d \<Rightarrow> [road_line ((12, CHR ''A''), d)])
            = [''A12 A 1,5'', ''A12 1,5'']"
    by code_simp
  from query_both_sections [OF h1 h2 h3 h4 h3, of ?w 3]
  have "handle_command ?w (3, ''? A12'') = (True, ?w\<lparr>cout := [''A12 A 1,5'', ''A12 1,5'']\<rparr>)"
    unfolding l ev .
  with h1 h2 h3 h4 show ?thesis
    by blast
qed

text \<open>
  C5. A line that \<open>parse_command\<close> accepts, whatever its argument, is handled by
  \<open>handle_command\<close> alone; the ledger and the error stream stay as they are. Two
  commands without argument, one after the other, write the same lines.
\<close>

theorem queries_read_only:
  assumes "parse_command line = Some c"
  shows "fst (handle_command w (n, line))
         \<and> state (snd (handle_command w (n, line))) = state w
         \<and> cerr (snd (handle_command w (n, line))) = cerr w
         \<and> handle_line w (n, line) = snd (handle_command w (n, line))
         \<and> (c = (None, None) \<and> parse_command line' = Some (None, None) \<longrightarrow>
              cout (handle_line w (n, line))
                = cout w @ map vehicle_line (vehicles_data (state w))
                    @ map road_line (roads_data (state w))
              \<and> cout (handle_line (handle_line w (n, line)) (n', line'))
                = cout (handle_line w (n, line)) @ map vehicle_line (vehicles_data (state w))
                    @ map road_line (roads_data (state w)))"
proof -
  have a: "handle_line w' k = snd (handle_command w' k)"
    if "parse_command (snd k) = Some c'" for w' k c'
    using that handle_line_command [of "snd k" c' w' "fst k"] by simp
  have b: "fst (handle_command w (n, line))" "state (snd (handle_command w (n, line))) = state w"
    "cerr (snd (handle_command w (n, line))) = cerr w"
    using assms by (cases c; simp add: handle_command_def)+
  have c: "cout (snd (handle_command (snd (handle_command w (n, line))) (n', line')))
             = cout (snd (handle_command w (n, line)))
                 @ map vehicle_line (vehicles_data (state w)) @ map road_line (roads_data (state w))"
    "cout (snd (handle_command w (n, line)))
             = cout w @ map vehicle_line (vehicles_data (state w))
                 @ map road_line (roads_data (state w))"
    if "c = (None, None)" "parse_command line' = Some (None, None)"
    using that assms by (simp_all add: handle_command_def)
  show ?thesis
    using assms b c by (auto simp: a)
qed

theorem queries_read_only_witness:
  "parse_command ''?'' = Some (None, None) \<and> parse_command '' ? '' = Some (None, None)
   \<and> state (handle_line (handle_all [''ABC123 A1 10,0'', ''ABC123 A1 15,0'']) (3, ''?''))
       = state (handle_all [''ABC123 A1 10,0'', ''ABC123 A1 15,0''])
   \<and> cout (handle_line (handle_all [''ABC123 A1 10,0'', ''ABC123 A1 15,0'']) (3, ''?''))
       = [''ABC123 A 5,0'', ''A1 5,0'']
   \<and> cout (handle_line
             (handle_line (handle_all [''ABC123 A1 10,0'', ''ABC123 A1 15,0'']) (3, ''?''))
             (4, '' ? ''))
       = [''ABC123 A 5,0'', ''A1 5,0''] @ [''ABC123 A 5,0'', ''A1 5,0'']"
proof -
  let ?w = "handle_all [''ABC123 A1 10,0'', ''ABC123 A1 15,0'']"
  have h1: "parse_command ''?'' = Some (None, None)" by code_simp
  have h2: "parse_command '' ? '' = Some (None, None)" by code_simp
  have ev: "map vehicle_line (vehicles_data (state ?w)) @ map road_line (roads_data (state ?w))
            = [''ABC123 A 5,0'', ''A1 5,0'']"
    by code_simp
  have c0: "cout ?w = []"
    by code_simp
  note t = queries_read_only [OF h1, of ?w 3 "'' ? ''" 4]
  have s: "state (handle_line ?w (3, ''?'')) = state ?w"
    using t by simp
  have c: "cout (handle_line ?w (3, ''?'')) = [''ABC123 A 5,0'', ''A1 5,0'']
           \<and> cout (handle_line (handle_line ?w (3, ''?'')) (4, '' ? ''))
               = cout (handle_line ?w (3, ''?'')) @ [''ABC123 A 5,0'', ''A1 5,0'']"
    using t h2 unfolding ev c0 append_Nil by blast
  show ?thesis
    using h1 h2 s c by simp
qed

subsection \<open>The maps stay in key order\<close>

lemma keys_map_set: "fst ` set (map_set m k v) = insert k (fst ` set m)"
  by (induction m) (auto split: if_splits simp: rev_image_eqI)

lemma set_map_set: "set (map_set m k v) \<subseteq> insert (k, v) (set m)"
  by (induction m) (auto split: if_splits)

lemma set_map_erase: "set (map_erase m k) \<subseteq> set m"
  by (induction m) (auto split: if_splits)

lemma map_ok_Cons: "map_ok ((k, v) # m) \<longleftrightarrow> (\<forall>x \<in> fst ` set m. k < x) \<and> map_ok m"
  by (auto simp: map_ok_def)

lemma map_ok_set: "map_ok m \<Longrightarrow> map_ok (map_set m k v)"
proof (induction m)
  case Nil
  then show ?case by (simp add: map_ok_def)
next
  case (Cons e m)
  obtain k' v' where e: "e = (k', v')" by (cases e)
  from Cons.prems have above: "\<forall>x \<in> fst ` set m. k' < x" and ok: "map_ok m"
    by (simp_all add: e map_ok_Cons)
  show ?case
  proof (cases "k < k'")
    case True
    then have "\<forall>x \<in> fst ` set ((k', v') # m). k < x"
      using above by auto
    with True Cons.prems show ?thesis
      by (simp add: e map_ok_Cons del: set_simps image_insert)
  next
    case False
    show ?thesis
    proof (cases "k = k'")
      case True
      with above ok show ?thesis
        by (simp add: e map_ok_Cons)
    next
      case ne: False
      with False have "k' < k" by simp
      then have "\<forall>x \<in> fst ` set (map_set m k v). k' < x"
        using above by (simp add: keys_map_set)
      with False ne Cons.IH [OF ok] show ?thesis
        by (simp add: e map_ok_Cons)
    qed
  qed
qed

lemma map_ok_erase: "map_ok m \<Longrightarrow> map_ok (map_erase m k)"
proof (induction m)
  case Nil
  then show ?case by simp
next
  case (Cons e m)
  obtain k' v' where e: "e = (k', v')" by (cases e)
  from Cons.prems have above: "\<forall>x \<in> fst ` set m. k' < x" and ok: "map_ok m"
    by (simp_all add: e map_ok_Cons)
  have "\<forall>x \<in> fst ` set (map_erase m k). k' < x"
    using above set_map_erase [of m k] by auto
  with ok Cons.IH show ?case
    by (simp add: e map_ok_Cons)
qed

lemma map_find_above:
  fixes m :: "('k::linorder, 'v) std_map"
  shows "\<forall>x \<in> fst ` set m. k < x \<Longrightarrow> map_find m k = None"
  by (induction m) (auto simp: map_find_def)

lemma map_find_erase_same: "map_ok m \<Longrightarrow> map_find (map_erase m k) k = None"
proof (induction m)
  case Nil
  then show ?case by (simp add: map_find_def)
next
  case (Cons e m)
  obtain k' v' where e: "e = (k', v')" by (cases e)
  from Cons.prems have above: "\<forall>x \<in> fst ` set m. k' < x" and ok: "map_ok m"
    by (simp_all add: e map_ok_Cons)
  show ?case
  proof (cases "k' = k")
    case True
    with above show ?thesis
      by (simp add: e map_find_above)
  next
    case False
    with Cons.IH [OF ok] show ?thesis
      by (simp add: e map_find_def)
  qed
qed

lemma map_find_in: "map_find m k = Some v \<Longrightarrow> (k, v) \<in> set m"
  by (simp add: map_find_def map_of_SomeD)

lemma map_at_ok: "list_all (\<lambda>e. map_ok (snd e)) m \<Longrightarrow> map_ok (map_at m [] k)"
  by (auto simp: map_at_def map_ok_def list_all_iff split: option.splits dest!: map_find_in)

lemma all_ok_set:
  "list_all (\<lambda>e. map_ok (snd e)) m \<Longrightarrow> map_ok v \<Longrightarrow> list_all (\<lambda>e. map_ok (snd e)) (map_set m k v)"
  using set_map_set [of m k v] by (auto simp: list_all_iff)

lemma add_entry_ok: "state_ok s \<Longrightarrow> state_ok (fst (add_entry s v r d l))"
  by (auto simp: add_entry_def state_ok_def Let_def map_ok_set map_ok_erase map_at_ok all_ok_set
      split: option.splits)

lemma handle_command_state: "state (snd (handle_command w ld)) = state w"
  by (auto simp: handle_command_def split: option.splits)

lemma handle_info_ok:
  assumes "state_ok (state w)"
  shows "state_ok (state (snd (handle_info w ld)))"
proof (cases "parse_info (snd ld)")
  case None
  then show ?thesis
    using assms by (simp add: handle_info_def)
next
  case (Some i)
  obtain v r d where i: "i = (v, r, d)"
    by (cases i)
  obtain s' e where a: "add_entry (state w) v r d ld = (s', e)"
    by (cases "add_entry (state w) v r d ld")
  have "state_ok s'"
    using add_entry_ok [OF assms, of v r d ld] a by simp
  then show ?thesis
    using Some i a by (cases e) (simp_all add: handle_info_def print_error_def)
qed

lemma handle_line_ok: "state_ok (state w) \<Longrightarrow> state_ok (state (handle_line w ld))"
proof -
  assume ok: "state_ok (state w)"
  have c: "state_ok (state (snd (handle_command w ld)))"
    using ok by (simp add: handle_command_state)
  have i: "state_ok (state (snd (handle_info (snd (handle_command w ld)) ld)))"
    using c by (rule handle_info_ok)
  show ?thesis
    using ok c i
    by (auto simp: handle_line_def print_error_def split: prod.splits bool.splits)
qed

lemma handle_loop_ok: "state_ok (state w) \<Longrightarrow> state_ok (state (handle_loop w n ls))"
  by (induction ls arbitrary: w n) (simp_all add: handle_line_ok)

lemma handle_all_ok: "state_ok (state (handle_all ls))"
proof -
  have "state_ok (state empty_world)"
    by (simp add: empty_world_def state_ok_def map_ok_def)
  then show ?thesis
    unfolding handle_all_def by (rule handle_loop_ok)
qed

text \<open>
  C3. After any input, a command without argument appends to the standard output the
  lines of the vehicles in the order of \<open>vehicles_data\<close>, then the lines of the roads in
  the order of \<open>roads_data\<close>. The plates are strictly ascending, the road types within
  every vehicle's line are strictly ascending, and the roads are strictly ascending by
  number and, for equal numbers, by type letter.
\<close>

theorem query_all_order:
  assumes "parse_command line = Some (None, None)"
  shows "handle_line (handle_all lines) (n, line)
           = (handle_all lines)
               \<lparr>cout := cout (handle_all lines)
                  @ map vehicle_line (vehicles_data (state (handle_all lines)))
                  @ map road_line (roads_data (state (handle_all lines)))\<rparr>
         \<and> sorted_wrt (<) (map fst (vehicles_data (state (handle_all lines))))
         \<and> list_all (\<lambda>e. sorted_wrt (<) (map fst (snd e)))
             (vehicles_data (state (handle_all lines)))
         \<and> sorted_wrt (\<lambda>r r'. fst r < fst r' \<or> (fst r = fst r' \<and> snd r < snd r'))
             (map fst (roads_data (state (handle_all lines))))"
proof -
  have "handle_line (handle_all lines) (n, line)
          = snd (handle_command (handle_all lines) (n, line))"
    using assms by (rule handle_line_command)
  then have out: "handle_line (handle_all lines) (n, line)
           = (handle_all lines)
               \<lparr>cout := cout (handle_all lines)
                  @ map vehicle_line (vehicles_data (state (handle_all lines)))
                  @ map road_line (roads_data (state (handle_all lines)))\<rparr>"
    using assms by (simp add: handle_command_def)
  have ord: "(\<lambda>r r' :: road_t. fst r < fst r' \<or> (fst r = fst r' \<and> snd r < snd r')) = (<)"
    by (auto simp: fun_eq_iff less_prod_def less_le)
  show ?thesis
    using handle_all_ok [of lines] out
    unfolding ord by (simp add: state_ok_def map_ok_def)
qed

theorem query_all_order_witness:
  "parse_command ''?'' = Some (None, None)
   \<and> cout (handle_line
        (handle_all [''XYZ S12 0,0'', ''XYZ S12 1,0'', ''XYZ A12 0,0'', ''XYZ A12 2,0'',
                     ''ABC S3 0,0'', ''ABC S3 3,0'']) (7, ''?''))
      = [''ABC S 3,0'', ''XYZ A 2,0 S 1,0'', ''S3 3,0'', ''A12 2,0'', ''S12 1,0'']"
proof -
  let ?w = "handle_all [''XYZ S12 0,0'', ''XYZ S12 1,0'', ''XYZ A12 0,0'', ''XYZ A12 2,0'',
                     ''ABC S3 0,0'', ''ABC S3 3,0'']"
  have h: "parse_command ''?'' = Some (None, None)" by code_simp
  have ev: "cout ?w @ map vehicle_line (vehicles_data (state ?w))
              @ map road_line (roads_data (state ?w))
            = [''ABC S 3,0'', ''XYZ A 2,0 S 1,0'', ''S3 3,0'', ''A12 2,0'', ''S12 1,0'']"
    by code_simp
  have "handle_line ?w (7, ''?'')
          = ?w\<lparr>cout := [''ABC S 3,0'', ''XYZ A 2,0 S 1,0'', ''S3 3,0'', ''A12 2,0'', ''S12 1,0'']\<rparr>"
    using query_all_order [OF h, where n = 7 and lines = "[''XYZ S12 0,0'', ''XYZ S12 1,0'',
        ''XYZ A12 0,0'', ''XYZ A12 2,0'', ''ABC S3 0,0'', ''ABC S3 3,0'']"]
    unfolding ev by blast
  then show ?thesis
    using h by simp
qed

subsection \<open>An entry that stays pending\<close>

lemma map_erase_erase: "map_erase (map_erase m k) k' = map_erase (map_erase m k') k"
  by (induction m) auto

lemma map_set_below:
  fixes m :: "('k::linorder, 'v) std_map"
  shows "\<forall>x \<in> fst ` set m. k < x \<Longrightarrow> map_set m k v = (k, v) # m"
  by (cases m) auto

lemma map_erase_set_other:
  "map_ok m \<Longrightarrow> k' \<noteq> k \<Longrightarrow> map_erase (map_set m k x) k' = map_set (map_erase m k') k x"
proof (induction m)
  case Nil
  then show ?case by simp
next
  case (Cons e m)
  obtain a b where e: "e = (a, b)" by (cases e)
  from Cons.prems have above: "\<forall>x \<in> fst ` set m. a < x" and ok: "map_ok m"
    by (simp_all add: e map_ok_Cons)
  show ?case
  proof (cases "a = k'")
    case True
    show ?thesis
    proof (cases "k < a")
      case lt: True
      then have "\<forall>x \<in> fst ` set m. k < x"
        using above by auto
      then have "map_set m k x = (k, x) # m"
        by (rule map_set_below)
      with True lt Cons.prems(2) show ?thesis
        by (simp add: e)
    next
      case False
      with True Cons.prems(2) show ?thesis
        by (simp add: e)
    qed
  next
    case False
    with Cons.IH [OF ok Cons.prems(2)] Cons.prems(2) show ?thesis
      by (simp add: e)
  qed
qed

lemma add_entry_drop:
  assumes "map_ok (not_finished s)" and "v' \<noteq> v"
  shows "add_entry (s\<lparr>not_finished := map_erase (not_finished s) v\<rparr>) v' r d l
           = (fst (add_entry s v' r d l)
                \<lparr>not_finished := map_erase (not_finished (fst (add_entry s v' r d l))) v\<rparr>,
              snd (add_entry s v' r d l))"
proof -
  have f: "map_find (map_erase (not_finished s) v) v' = map_find (not_finished s) v'"
    using assms(2) by (rule map_find_erase_other)
  have c: "map_erase (map_set (not_finished s) v' x) v = map_set (map_erase (not_finished s) v) v' x"
    for x
    using assms by (intro map_erase_set_other) auto
  show ?thesis
    by (auto simp: add_entry_def f c Let_def map_erase_erase split: option.splits)
qed

lemma handle_command_drop:
  "handle_command (drop_pending w v) ld
     = (fst (handle_command w ld), drop_pending (snd (handle_command w ld)) v)"
  by (auto simp: handle_command_def drop_pending_def split: option.splits)

lemma print_error_drop: "print_error (drop_pending w v) e = drop_pending (print_error w e) v"
  by (simp add: print_error_def drop_pending_def)

lemma handle_info_drop:
  assumes "map_ok (not_finished (state w))" and "\<not> crossing_of v (snd ld)"
  shows "handle_info (drop_pending w v) ld
           = (fst (handle_info w ld), drop_pending (snd (handle_info w ld)) v)"
proof (cases "parse_info (snd ld)")
  case None
  then show ?thesis
    by (simp add: handle_info_def)
next
  case (Some i)
  obtain v' r d where i: "i = (v', r, d)"
    by (cases i)
  have ne: "v' \<noteq> v"
    using assms(2) Some i by (auto simp: crossing_of_def)
  obtain s' e where a: "add_entry (state w) v' r d ld = (s', e)"
    by (cases "add_entry (state w) v' r d ld")
  have b: "add_entry (state (drop_pending w v)) v' r d ld
             = (s'\<lparr>not_finished := map_erase (not_finished s') v\<rparr>, e)"
    using add_entry_drop [OF assms(1) ne, of r d ld] a by (simp add: drop_pending_def)
  show ?thesis
    using Some i a b
    by (cases e) (simp_all add: handle_info_def print_error_def drop_pending_def)
qed

lemma handle_line_drop:
  assumes "map_ok (not_finished (state w))" and "\<not> crossing_of v (snd ld)"
  shows "handle_line (drop_pending w v) ld = drop_pending (handle_line w ld) v"
proof (cases "parse_command (snd ld)")
  case None
  then have c: "handle_command w' ld = (False, w')" for w'
    by (simp add: handle_command_def)
  show ?thesis
    using handle_info_drop [OF assms]
    by (cases "handle_info w ld"; cases "fst (handle_info w ld)")
       (auto simp: handle_line_def c print_error_drop)
next
  case (Some cmd)
  then have "fst (handle_command w ld)"
    by (cases cmd) (simp add: handle_command_def)
  then show ?thesis
    by (cases "handle_command w ld") (auto simp: handle_line_def handle_command_drop)
qed


lemma handle_loop_drop:
  assumes "state_ok (state w)" and "list_all (\<lambda>l. \<not> crossing_of v l) ls"
  shows "handle_loop (drop_pending w v) n ls = drop_pending (handle_loop w n ls) v"
  using assms
proof (induction ls arbitrary: w n)
  case Nil
  then show ?case by simp
next
  case (Cons l ls)
  have ok: "map_ok (not_finished (state w))"
    using Cons.prems(1) by (simp add: state_ok_def)
  have step: "handle_line (drop_pending w v) (n + 1, l) = drop_pending (handle_line w (n + 1, l)) v"
    using Cons.prems(2) by (intro handle_line_drop [OF ok]) simp
  have "state_ok (state (handle_line w (n + 1, l)))"
    using Cons.prems(1) by (rule handle_line_ok)
  then show ?case
    using Cons.IH Cons.prems(2) by (simp add: step)
qed

lemma add_entry_pending_other:
  "v' \<noteq> v \<Longrightarrow>
   map_find (not_finished (fst (add_entry s v' r d l))) v = map_find (not_finished s) v"
  by (auto simp: add_entry_def Let_def map_find_set_other map_find_erase_other
      split: option.splits)

lemma handle_line_pending:
  assumes "\<not> crossing_of v (snd ld)"
  shows "map_find (not_finished (state (handle_line w ld))) v
           = map_find (not_finished (state w)) v"
proof (cases "parse_command (snd ld)")
  case (Some cmd)
  then have "handle_line w ld = snd (handle_command w ld)"
    using handle_line_command [of "snd ld" cmd w "fst ld"] by simp
  then show ?thesis
    by (simp add: handle_command_state)
next
  case None
  then have c: "handle_command w ld = (False, w)"
    by (simp add: handle_command_def)
  show ?thesis
  proof (cases "parse_info (snd ld)")
    case None
    then show ?thesis
      by (simp add: handle_line_def c handle_info_def print_error_def)
  next
    case (Some i)
    obtain v' r d where i: "i = (v', r, d)"
      by (cases i)
    have ne: "v' \<noteq> v"
      using assms Some i by (auto simp: crossing_of_def)
    obtain s' e where a: "add_entry (state w) v' r d ld = (s', e)"
      by (cases "add_entry (state w) v' r d ld")
    have "map_find (not_finished s') v = map_find (not_finished (state w)) v"
      using add_entry_pending_other [OF ne, of "state w" r d ld] a by simp
    then show ?thesis
      using Some i a
      by (cases e) (simp_all add: handle_line_def c handle_info_def print_error_def)
  qed
qed

lemma handle_loop_pending:
  "list_all (\<lambda>l. \<not> crossing_of v l) ls \<Longrightarrow>
   map_find (not_finished (state (handle_loop w n ls))) v = map_find (not_finished (state w)) v"
  by (induction ls arbitrary: w n) (simp_all add: handle_line_pending)

lemma handle_loop_append:
  "handle_loop w n (xs @ ys) = handle_loop (handle_loop w n xs) (n + of_nat (length xs)) ys"
  by (induction xs arbitrary: w n) (simp_all add: ac_simps)

lemma handle_all_append:
  "handle_all (xs @ ys) = handle_loop (handle_all xs) (of_nat (length xs)) ys"
  by (simp add: handle_all_def handle_loop_append)

text \<open>
  C6. A vehicle has a pending entry after the lines \<open>pre\<close>, and none of the remaining
  lines \<open>post\<close> is a crossing of that vehicle, so the entry is unmatched when the input
  ends. The entry is then still in the ledger, and the run has written to both streams
  and accumulated in both tables of totals exactly what it does when the entry is removed
  right after \<open>pre\<close>, so that the vehicle has none. At the end of the input the loop returns the world as it is:
  nothing is written or accumulated for the entry, which is dropped with the ledger.
\<close>

theorem unmatched_pending_discarded:
  assumes "map_find (not_finished (state (handle_all pre))) v = Some e"
    and "list_all (\<lambda>l. \<not> crossing_of v l) post"
  shows "map_find (not_finished (state (handle_all (pre @ post)))) v = Some e
         \<and> map_find (not_finished (state (drop_pending (handle_all pre) v))) v = None
         \<and> cout (handle_all (pre @ post))
             = cout (handle_loop (drop_pending (handle_all pre) v) (of_nat (length pre)) post)
         \<and> cerr (handle_all (pre @ post))
             = cerr (handle_loop (drop_pending (handle_all pre) v) (of_nat (length pre)) post)
         \<and> roads_data (state (handle_all (pre @ post)))
             = roads_data (state
                 (handle_loop (drop_pending (handle_all pre) v) (of_nat (length pre)) post))
         \<and> vehicles_data (state (handle_all (pre @ post)))
             = vehicles_data (state
                 (handle_loop (drop_pending (handle_all pre) v) (of_nat (length pre)) post))
         \<and> handle_loop (handle_all (pre @ post)) (of_nat (length (pre @ post))) []
             = handle_all (pre @ post)"
proof -
  have "handle_loop (drop_pending (handle_all pre) v) (of_nat (length pre)) post
          = drop_pending (handle_all (pre @ post)) v"
    using handle_all_ok assms(2) by (simp add: handle_all_append handle_loop_drop)
  moreover have "map_find (not_finished (state (handle_all (pre @ post)))) v = Some e"
    using assms by (simp add: handle_all_append handle_loop_pending)
  moreover have "map_find (not_finished (state (drop_pending (handle_all pre) v))) v = None"
    using handle_all_ok [of pre] by (simp add: drop_pending_def state_ok_def map_find_erase_same)
  ultimately show ?thesis
    by (simp add: drop_pending_def)
qed

theorem unmatched_pending_discarded_witness:
  "map_find (not_finished (state (handle_all [''ABC123 A1 10,0'']))) ''ABC123''
     = Some ((1, CHR ''A''), 100, 1, ''ABC123 A1 10,0'')
   \<and> list_all (\<lambda>l. \<not> crossing_of ''ABC123'' l) [''XYZ S2 1,0'', ''XYZ S2 3,0'', ''?'']
   \<and> map_find (not_finished (state
          (handle_all [''ABC123 A1 10,0'', ''XYZ S2 1,0'', ''XYZ S2 3,0'', ''?'']))) ''ABC123''
     = Some ((1, CHR ''A''), 100, 1, ''ABC123 A1 10,0'')
   \<and> cout (handle_all [''ABC123 A1 10,0'', ''XYZ S2 1,0'', ''XYZ S2 3,0'', ''?''])
     = [''XYZ S 2,0'', ''S2 2,0'']
   \<and> cerr (handle_all [''ABC123 A1 10,0'', ''XYZ S2 1,0'', ''XYZ S2 3,0'', ''?'']) = []
   \<and> roads_data (state (handle_all [''ABC123 A1 10,0'', ''XYZ S2 1,0'', ''XYZ S2 3,0'', ''?'']))
     = [((2, CHR ''S''), 20)]
   \<and> vehicles_data (state
          (handle_all [''ABC123 A1 10,0'', ''XYZ S2 1,0'', ''XYZ S2 3,0'', ''?'']))
     = [(''XYZ'', [(CHR ''S'', 20)])]"
proof -
  let ?pre = "[''ABC123 A1 10,0'']"
  let ?post = "[''XYZ S2 1,0'', ''XYZ S2 3,0'', ''?'']"
  let ?run = "handle_loop (drop_pending (handle_all ?pre) ''ABC123'') (of_nat (length ?pre)) ?post"
  have h1: "map_find (not_finished (state (handle_all ?pre))) ''ABC123''
              = Some ((1, CHR ''A''), 100, 1, ''ABC123 A1 10,0'')"
    by code_simp
  have h2: "list_all (\<lambda>l. \<not> crossing_of ''ABC123'' l) ?post"
    by code_simp
  have ev: "cout ?run = [''XYZ S 2,0'', ''S2 2,0'']" "cerr ?run = []"
    "roads_data (state ?run) = [((2, CHR ''S''), 20)]"
    "vehicles_data (state ?run) = [(''XYZ'', [(CHR ''S'', 20)])]"
    by code_simp+
  have app: "?pre @ ?post = [''ABC123 A1 10,0'', ''XYZ S2 1,0'', ''XYZ S2 3,0'', ''?'']"
    by simp
  show ?thesis
    using h1 h2 unmatched_pending_discarded [OF h1 h2]
    unfolding ev app by blast
qed

text \<open>When the entry was opened by a crossing of a vehicle without pending entry, the
  run is the run in which that line is blank, up to the entry itself.\<close>

lemma trailing_entry_as_blank:
  assumes "parse_command l = None" and "parse_info l = Some (v, r, d)"
    and "map_find (not_finished (state (handle_all pre))) v = None"
    and "list_all (\<lambda>l. \<not> crossing_of v l) post"
  shows "drop_pending (handle_all (pre @ l # post)) v = handle_all (pre @ [] # post)"
proof -
  let ?n = "of_nat (length pre) :: cint"
  have ne: "l \<noteq> []"
    using assms(2) by (auto simp: parse_info_def split_args.simps)
  have c: "handle_command (handle_all pre) (?n + 1, l) = (False, handle_all pre)"
    using assms(1) by (simp add: handle_command_def)
  have one: "handle_line (handle_all pre) (?n + 1, l)
          = (handle_all pre)\<lparr>state := (state (handle_all pre))
               \<lparr>not_finished := map_set (not_finished (state (handle_all pre))) v
                                  (r, d, ?n + 1, l)\<rparr>\<rparr>"
    using ne assms(2,3)
    by (simp add: handle_line_def c handle_info_def add_entry_open)
  have dropped: "drop_pending (handle_line (handle_all pre) (?n + 1, l)) v = handle_all pre"
    using assms(3) by (simp add: one drop_pending_def map_erase_set_fresh)
  have "state_ok (state (handle_line (handle_all pre) (?n + 1, l)))"
    using handle_all_ok by (rule handle_line_ok)
  then have "drop_pending (handle_loop (handle_line (handle_all pre) (?n + 1, l)) (?n + 1) post) v
          = handle_loop (handle_all pre) (?n + 1) post"
    using assms(4) by (simp add: handle_loop_drop [symmetric] dropped)
  moreover have "handle_line (handle_all pre) (?n + 1, []) = handle_all pre"
    by (simp add: handle_line_def)
  ultimately show ?thesis
    by (simp add: handle_all_append)
qed

subsection \<open>Scenarios\<close>

text \<open>A closed segment of five units, queried by the plate.\<close>

lemma scenario_segment:
  "cout (handle_all [''ABC123 A1 10,0'', ''ABC123 A1 15,0'', ''? ABC123'']) = [''ABC123 A 5,0'']
   \<and> cerr (handle_all [''ABC123 A1 10,0'', ''ABC123 A1 15,0'', ''? ABC123'']) = []"
  by code_simp

text \<open>A crossing on another road: the first line is reported, and neither road has a
  total to print.\<close>

lemma scenario_conflict:
  "cout (handle_all [''ABC123 A1 10,0'', ''ABC123 S2 5,0'', ''? A1'', ''? S2'']) = []
   \<and> cerr (handle_all [''ABC123 A1 10,0'', ''ABC123 S2 5,0'', ''? A1'', ''? S2''])
       = [''Error in line 1: ABC123 A1 10,0'']"
  by code_simp

end
